theory Spec2Isabelle
  imports Main "HOL-Library.Log_Nat"
begin

section \<open>Data model\<close>

text \<open>
  A two-dimensional numpy array: its shape and its entries. The entries are integers
  (the source works on \<open>int8\<close> arrays holding 0 and 1); only the entries inside the
  shape belong to the array, the function's values outside of it are never read.
\<close>

record ndarray =
  nrows :: nat
  ncols :: nat
  entry :: "nat \<Rightarrow> nat \<Rightarrow> int"

datatype py_error = IndexError | ValueError

text \<open>An array given by its rows, for writing down concrete inputs.\<close>

definition of_rows :: "nat \<Rightarrow> nat \<Rightarrow> int list list \<Rightarrow> ndarray" where
  "of_rows n m rows = \<lparr>nrows = n, ncols = m, entry = (\<lambda>i j. rows ! i ! j)\<rparr>"

definition binary :: "ndarray \<Rightarrow> bool" where
  "binary A \<longleftrightarrow> (\<forall>i<nrows A. \<forall>j<ncols A. entry A i j = 0 \<or> entry A i j = 1)"

text \<open>\<open>np.zeros((n, m))\<close> and \<open>np.identity(n)\<close>.\<close>

definition zeros :: "nat \<Rightarrow> nat \<Rightarrow> ndarray" where
  "zeros n m = \<lparr>nrows = n, ncols = m, entry = (\<lambda>i j. 0)\<rparr>"

definition identity :: "nat \<Rightarrow> ndarray" where
  "identity n = \<lparr>nrows = n, ncols = n, entry = (\<lambda>i j. if i = j then 1 else 0)\<rparr>"

text \<open>The assignment \<open>M[i, j] = v\<close>.\<close>

definition setitem :: "nat \<Rightarrow> nat \<Rightarrow> int \<Rightarrow> ndarray \<Rightarrow> ndarray" where
  "setitem i j v M = M\<lparr>entry := (\<lambda>r c. if r = i \<and> c = j then v else entry M r c)\<rparr>"

text \<open>
  Storing a value into an \<open>int8\<close> array keeps its low eight bits, read as a signed
  number.
\<close>

definition int8 :: "int \<Rightarrow> int" where
  "int8 x = (x + 128) mod 256 - 128"

text \<open>\<open>np.hstack((A, B))\<close> and \<open>np.vstack((A, B))\<close> for arrays of matching shape.\<close>

definition hstack :: "ndarray \<Rightarrow> ndarray \<Rightarrow> ndarray" where
  "hstack A B = \<lparr>nrows = nrows A, ncols = ncols A + ncols B,
     entry = (\<lambda>i j. if j < ncols A then entry A i j else entry B i (j - ncols A))\<rparr>"

definition vstack :: "ndarray \<Rightarrow> ndarray \<Rightarrow> ndarray" where
  "vstack A B = \<lparr>nrows = nrows A + nrows B, ncols = ncols A,
     entry = (\<lambda>i j. if i < nrows A then entry A i j else entry B (i - nrows A) j)\<rparr>"

text \<open>
  The column addition \<open>M[:, t] = (M[:, t] + M[:, s]) % 2\<close> and the row addition
  \<open>M[t, :] = (M[t, :] + M[s, :]) % 2\<close>. Python's \<open>%\<close> with a positive modulus gives a
  result in \<open>{0, 1}\<close>, as \<open>mod\<close> on \<open>int\<close> does; a wrap-around of the \<open>int8\<close> sum
  would not change its parity.
\<close>

definition col_add :: "nat \<Rightarrow> nat \<Rightarrow> ndarray \<Rightarrow> ndarray" where
  "col_add s t M =
     M\<lparr>entry := (\<lambda>r c. if c = t then (entry M r t + entry M r s) mod 2 else entry M r c)\<rparr>"

definition row_add :: "nat \<Rightarrow> nat \<Rightarrow> ndarray \<Rightarrow> ndarray" where
  "row_add s t M =
     M\<lparr>entry := (\<lambda>r c. if r = t then (entry M t c + entry M s c) mod 2 else entry M r c)\<rparr>"

section \<open>GF(2) linear algebra kernel\<close>

subsection \<open>Row reduction with pivots\<close>

text \<open>
  \<open>row_wise_gaussian_elimination_pivots(A)\<close> works on \<open>M = np.copy(A)\<close> with
  \<open>n, m = M.shape\<close>. The search \<open>for i in range(k + 1, n)\<close> for a row with a 1 in
  column \<open>j\<close> adds the row found into row \<open>k\<close> and breaks; the result says whether a
  pivot was found.
\<close>

fun find_pivot :: "nat \<Rightarrow> nat \<Rightarrow> nat list \<Rightarrow> ndarray \<Rightarrow> bool \<times> ndarray" where
  "find_pivot k j [] M = (False, M)"
| "find_pivot k j (i # rest) M =
     (if entry M i j = 1 then (True, row_add i k M) else find_pivot k j rest M)"

text \<open>The elimination loop below a pivot: every row with a 1 in column \<open>j\<close> gets row \<open>k\<close> added.\<close>

fun eliminate_below :: "nat \<Rightarrow> nat \<Rightarrow> nat list \<Rightarrow> ndarray \<Rightarrow> ndarray" where
  "eliminate_below k j [] M = M"
| "eliminate_below k j (i # rest) M =
     eliminate_below k j rest (if entry M i j = 1 then row_add k i M else M)"

type_synonym pivot = "nat \<times> nat"

text \<open>
  The loop over the columns \<open>j\<close>, on the state \<open>(M, k, pivots)\<close>; it stops as soon as
  \<open>k = n\<close>.
\<close>

fun pivot_columns :: "nat \<Rightarrow> nat list \<Rightarrow> ndarray \<times> nat \<times> pivot list \<Rightarrow> ndarray \<times> nat \<times> pivot list" where
  "pivot_columns n [] st = st"
| "pivot_columns n (j # js) (M, k, pivots) =
     (if k = n then (M, k, pivots)
      else case (if entry M k j = 1 then (True, M) else find_pivot k j [k + 1..<n] M) of
        (found_pivot, M') \<Rightarrow>
          if found_pivot
          then pivot_columns n js (eliminate_below k j [k + 1..<n] M', k + 1, pivots @ [(k, j)])
          else pivot_columns n js (M', k, pivots))"

definition row_reduce :: "ndarray \<Rightarrow> ndarray \<times> nat \<times> pivot list" where
  "row_reduce A = (let M = A; n = nrows M; m = ncols M in pivot_columns n [0..<m] (M, 0, []))"

definition row_wise_gaussian_elimination_pivots :: "ndarray \<Rightarrow> pivot list" where
  "row_wise_gaussian_elimination_pivots A = snd (snd (row_reduce A))"

definition get_rank :: "ndarray \<Rightarrow> nat" where
  "get_rank A = length (row_wise_gaussian_elimination_pivots A)"

subsection \<open>Column reduction to the identity\<close>

type_synonym step = "nat \<times> nat"

text \<open>
  The first inner loop of \<open>col_wise_gaussian_elimination_steps\<close>: the first column
  \<open>j > i\<close> with a 1 in row \<open>i\<close> is added into column \<open>i\<close>, the step \<open>(j, i)\<close> is
  recorded, and the loop breaks.
\<close>

fun make_pivot :: "nat \<Rightarrow> nat list \<Rightarrow> ndarray \<times> step list \<Rightarrow> ndarray \<times> step list" where
  "make_pivot i [] (M, steps) = (M, steps)"
| "make_pivot i (j # js) (M, steps) =
     (if entry M i j = 1 then (col_add j i M, steps @ [(j, i)])
      else make_pivot i js (M, steps))"

text \<open>
  Clearing row \<open>i\<close> over a range of columns: column \<open>i\<close> is added into every column
  \<open>j\<close> of the range that has a 1 in row \<open>i\<close>, recording \<open>(i, j)\<close>. The first phase
  runs it over \<open>range(i + 1, n)\<close>, the second over \<open>range(i - 1, -1, -1)\<close>.
\<close>

fun clear_row :: "nat \<Rightarrow> nat list \<Rightarrow> ndarray \<times> step list \<Rightarrow> ndarray \<times> step list" where
  "clear_row i [] (M, steps) = (M, steps)"
| "clear_row i (j # js) (M, steps) =
     clear_row i js (if entry M i j = 1 then (col_add i j M, steps @ [(i, j)]) else (M, steps))"

definition triangular_step :: "nat \<Rightarrow> nat \<Rightarrow> ndarray \<times> step list \<Rightarrow> ndarray \<times> step list" where
  "triangular_step n i st =
     clear_row i [i + 1..<n] (if entry (fst st) i i \<noteq> 1 then make_pivot i [i + 1..<n] st else st)"

definition col_reduce :: "ndarray \<Rightarrow> ndarray \<times> step list" where
  "col_reduce A = (let M = A; n = nrows M in
     fold (\<lambda>i. clear_row i (rev [0..<i])) (rev [0..<n])
       (fold (triangular_step n) [0..<n] (M, [])))"

text \<open>
  Row \<open>0\<close> is read at every column below \<open>n\<close>, so the call raises IndexError exactly
  when the array has fewer columns than rows.
\<close>

definition col_wise_gaussian_elimination_steps :: "ndarray \<Rightarrow> py_error + step list" where
  "col_wise_gaussian_elimination_steps A =
     (if ncols A < nrows A then Inl IndexError else Inr (snd (col_reduce A)))"

text \<open>Applying a step list as column additions: step \<open>(s, t)\<close> adds column \<open>s\<close> into column \<open>t\<close>.\<close>

definition apply_steps :: "step list \<Rightarrow> ndarray \<Rightarrow> ndarray" where
  "apply_steps steps A = fold (\<lambda>st M. col_add (fst st) (snd st) M) steps A"

subsection \<open>Congruence factorization\<close>

text \<open>
  \<open>find_M(A)\<close>: the body of the inner loop sets \<open>M[i, j]\<close> from \<open>A[i, j]\<close> and the
  entries of \<open>M\<close> in the columns before \<open>j\<close>. \<open>A[i, j]\<close> is read for \<open>j < i < n\<close>,
  so the call raises IndexError exactly when \<open>A\<close> has fewer than \<open>n - 1\<close> columns.
  The sum is taken over \<open>int\<close>; a wrap-around of the \<open>int8\<close> sum would not change the
  parity stored.
\<close>

definition find_M_entry :: "ndarray \<Rightarrow> nat \<Rightarrow> nat \<Rightarrow> ndarray \<Rightarrow> ndarray" where
  "find_M_entry A j i M =
     (let s = (\<Sum>k\<leftarrow>[0..<j]. entry M i k * entry M j k)
      in setitem i j ((entry A i j - s) mod 2) M)"

definition find_M_loop :: "ndarray \<Rightarrow> nat \<Rightarrow> ndarray" where
  "find_M_loop A n = fold (\<lambda>j. fold (find_M_entry A j) [j + 1..<n]) [0..<n] (identity n)"

definition find_M :: "ndarray \<Rightarrow> py_error + ndarray" where
  "find_M A = (let n = nrows A in
     if ncols A + 1 < n then Inl IndexError else Inr (find_M_loop A n))"

text \<open>The matrix operations of \<open>L = ((M @ M.T) - d) % 2\<close>.\<close>

definition transpose_nd :: "ndarray \<Rightarrow> ndarray" where
  "transpose_nd A = \<lparr>nrows = ncols A, ncols = nrows A, entry = (\<lambda>i j. entry A j i)\<rparr>"

definition matmul :: "ndarray \<Rightarrow> ndarray \<Rightarrow> ndarray" where
  "matmul A B = \<lparr>nrows = nrows A, ncols = ncols B,
     entry = (\<lambda>i j. \<Sum>k\<leftarrow>[0..<ncols A]. entry A i k * entry B k j)\<rparr>"

definition sub_nd :: "ndarray \<Rightarrow> ndarray \<Rightarrow> ndarray" where
  "sub_nd A B = A\<lparr>entry := (\<lambda>i j. entry A i j - entry B i j)\<rparr>"

definition mod2 :: "ndarray \<Rightarrow> ndarray" where
  "mod2 A = A\<lparr>entry := (\<lambda>i j. entry A i j mod 2)\<rparr>"

definition defect :: "ndarray \<Rightarrow> ndarray \<Rightarrow> ndarray" where
  "defect M d = mod2 (sub_nd (matmul M (transpose_nd M)) d)"

subsection \<open>Hadamard selection\<close>

text \<open>
  \<open>get_hadamard_steps(c, d)\<close>: \<open>np.hstack\<close> raises ValueError when the two arrays
  differ in their number of rows. The offset \<open>n\<close> is the first component of the shape of
  the stacked array.
\<close>

definition get_hadamard_steps :: "ndarray \<Rightarrow> ndarray \<Rightarrow> py_error + nat list" where
  "get_hadamard_steps c d =
     (if nrows c \<noteq> nrows d then Inl ValueError
      else let M = hstack c d; n = nrows M;
               pivots = row_wise_gaussian_elimination_pivots M
           in Inr [j - n. (i, j) \<leftarrow> pivots, n \<le> j])"

section \<open>Symplectic basis transform\<close>

text \<open>
  \<open>transform_symplectic(S)\<close>: the four quadrants are filled entry by entry in the
  double loop over \<open>j\<close> and \<open>k\<close>, then stacked. Reading \<open>S[2k+1, 2j+1]\<close> raises
  IndexError when \<open>S\<close> has fewer than \<open>2n\<close> columns (the rows always suffice, as
  \<open>n = S.shape[0] // 2\<close>).
\<close>

type_synonym quadrants = "ndarray \<times> ndarray \<times> ndarray \<times> ndarray"

definition fill_entry :: "ndarray \<Rightarrow> nat \<Rightarrow> nat \<Rightarrow> quadrants \<Rightarrow> quadrants" where
  "fill_entry S j k q = (case q of (a, b, c, d) \<Rightarrow>
     (setitem j k (int8 (entry S (2 * k) (2 * j))) a,
      setitem j k (int8 (entry S (2 * k + 1) (2 * j))) b,
      setitem j k (int8 (entry S (2 * k) (2 * j + 1))) c,
      setitem j k (int8 (entry S (2 * k + 1) (2 * j + 1))) d))"

definition fill_quadrants :: "ndarray \<Rightarrow> nat \<Rightarrow> quadrants \<Rightarrow> quadrants" where
  "fill_quadrants S n q = fold (\<lambda>j. fold (\<lambda>k. fill_entry S j k) [0..<n]) [0..<n] q"

definition transform_symplectic :: "ndarray \<Rightarrow> py_error + ndarray" where
  "transform_symplectic S =
     (let n = nrows S div 2 in
      if ncols S < 2 * n then Inl IndexError
      else case fill_quadrants S n (zeros n n, zeros n n, zeros n n, zeros n n) of
        (a, b, c, d) \<Rightarrow> Inr (vstack (hstack a b) (hstack c d)))"

section \<open>Gate records and the simulator\<close>

text \<open>
  A gate record is the tuple \<open>(gate, q_1, q_2)\<close>; \<open>q_2\<close> is \<open>None\<close> for the
  one-qubit gates.
\<close>

type_synonym gate = "string \<times> nat \<times> nat option"

text \<open>
  The simulator is not part of this module. It is taken as a parameter: its state, the
  tableau \<open>sim.state\<close> read from it, and its six mutators, one constructor of
  \<open>sim_call\<close> each. A handle pairs the simulator's state with the calls issued to it
  so far, in order.
\<close>

datatype sim_call =
    ApplyCnot nat "nat option"
  | ApplyHadamard nat
  | ApplyPhase nat
  | ApplyZ nat
  | ApplyX nat
  | ApplyY nat

record 's simulator =
  state :: "'s \<Rightarrow> ndarray"
  apply_call :: "sim_call \<Rightarrow> 's \<Rightarrow> 's"

type_synonym 's handle = "'s \<times> sim_call list"

definition issue :: "'s simulator \<Rightarrow> sim_call \<Rightarrow> 's handle \<Rightarrow> 's handle" where
  "issue ops c h = (apply_call ops c (fst h), snd h @ [c])"

section \<open>Replay\<close>

text \<open>
  \<open>apply_gates(gates, sim)\<close>: the result is the exception raised, if any, together
  with the simulator as the call leaves it.
\<close>

fun apply_gates :: "'s simulator \<Rightarrow> gate list \<Rightarrow> 's handle \<Rightarrow> py_error option \<times> 's handle" where
  "apply_gates ops [] h = (None, h)"
| "apply_gates ops ((gate, q1, q2) # gates) h =
     (if gate = ''c'' then apply_gates ops gates (issue ops (ApplyCnot q1 q2) h)
      else if gate = ''h'' then apply_gates ops gates (issue ops (ApplyHadamard q1) h)
      else if gate = ''p'' then apply_gates ops gates (issue ops (ApplyPhase q1) h)
      else if gate = ''z'' then apply_gates ops gates (issue ops (ApplyZ q1) h)
      else if gate = ''x'' then apply_gates ops gates (issue ops (ApplyX q1) h)
      else if gate = ''y'' then apply_gates ops gates (issue ops (ApplyY q1) h)
      else (Some ValueError, h))"

text \<open>The recognized kinds and the simulator operation each one stands for.\<close>

definition recognized :: "gate \<Rightarrow> bool" where
  "recognized g \<longleftrightarrow> fst g \<in> {''c'', ''h'', ''p'', ''z'', ''x'', ''y''}"

definition call_of :: "gate \<Rightarrow> sim_call" where
  "call_of g = (case g of (gate, q1, q2) \<Rightarrow>
     if gate = ''c'' then ApplyCnot q1 q2
     else if gate = ''h'' then ApplyHadamard q1
     else if gate = ''p'' then ApplyPhase q1
     else if gate = ''z'' then ApplyZ q1
     else if gate = ''x'' then ApplyX q1
     else ApplyY q1)"

text \<open>Issuing a sequence of calls, one after the other.\<close>

definition issue_all :: "'s simulator \<Rightarrow> sim_call list \<Rightarrow> 's handle \<Rightarrow> 's handle" where
  "issue_all ops cs h = fold (issue ops) cs h"

section \<open>Canonicalization\<close>

text \<open>
  \<open>decompose_state(sim)\<close>. The quadrants \<open>a, b, c, d\<close> are views of \<open>sim.state\<close>:
  reading one reads the simulator's current tableau. A run carries the simulator handle
  and the list \<open>gates\<close> accumulated so far.
\<close>

definition view :: "nat \<Rightarrow> nat \<Rightarrow> nat \<Rightarrow> ndarray \<Rightarrow> ndarray" where
  "view r0 c0 n S = \<lparr>nrows = n, ncols = n, entry = (\<lambda>i j. entry S (r0 + i) (c0 + j))\<rparr>"

datatype quadrant = Qa | Qb | Qc | Qd

type_synonym 's run = "'s handle \<times> gate list"

definition quad :: "'s simulator \<Rightarrow> nat \<Rightarrow> quadrant \<Rightarrow> 's run \<Rightarrow> ndarray" where
  "quad ops n q r = (let S = state ops (fst (fst r)) in
     case q of Qa \<Rightarrow> view 0 0 n S | Qb \<Rightarrow> view 0 n n S
             | Qc \<Rightarrow> view n 0 n S | Qd \<Rightarrow> view n n n S)"

text \<open>One loop body each: a simulator call followed by the appends to \<open>gates\<close>.\<close>

definition do_hadamard :: "'s simulator \<Rightarrow> nat \<Rightarrow> 's run \<Rightarrow> 's run" where
  "do_hadamard ops i r = (issue ops (ApplyHadamard i) (fst r), snd r @ [(''h'', i, None)])"

definition do_cnot :: "'s simulator \<Rightarrow> nat \<Rightarrow> nat \<Rightarrow> 's run \<Rightarrow> 's run" where
  "do_cnot ops i j r = (issue ops (ApplyCnot i (Some j)) (fst r), snd r @ [(''c'', i, Some j)])"

definition do_phase :: "'s simulator \<Rightarrow> nat \<Rightarrow> 's run \<Rightarrow> 's run" where
  "do_phase ops i r =
     (issue ops (ApplyPhase i) (fst r),
      ((snd r @ [(''p'', i, None)]) @ [(''p'', i, None)]) @ [(''p'', i, None)])"

text \<open>Stages 2, 6 and 11: the CNOTs of a column reduction of one quadrant.\<close>

definition column_reduce_stage :: "'s simulator \<Rightarrow> nat \<Rightarrow> quadrant \<Rightarrow> 's run \<Rightarrow> py_error + 's run" where
  "column_reduce_stage ops n q r =
     (case col_wise_gaussian_elimination_steps (quad ops n q r) of
        Inl e \<Rightarrow> Inl e
      | Inr steps \<Rightarrow> Inr (fold (\<lambda>st. do_cnot ops (fst st) (snd st)) steps r))"

text \<open>
  Stages 3 to 5 (on \<open>d\<close>) and 8 to 10 (on \<open>b\<close>): the phase corrections where the
  defect \<open>L\<close> has a 1 on its diagonal, the CNOTs of the entries of \<open>M\<close> below the
  diagonal, and the phase corrections on every qubit.
\<close>

definition phase_defect_loop :: "'s simulator \<Rightarrow> nat \<Rightarrow> ndarray \<Rightarrow> 's run \<Rightarrow> 's run" where
  "phase_defect_loop ops n L r =
     fold (\<lambda>i r. if entry L i i = 1 then do_phase ops i r else r) [0..<n] r"

definition cnot_sweep :: "'s simulator \<Rightarrow> nat \<Rightarrow> ndarray \<Rightarrow> 's run \<Rightarrow> 's run" where
  "cnot_sweep ops n M r =
     fold (\<lambda>j. fold (\<lambda>i r. if entry M i j = 1 then do_cnot ops i j r else r) [j + 1..<n]) [0..<n] r"

definition phase_all_loop :: "'s simulator \<Rightarrow> nat \<Rightarrow> 's run \<Rightarrow> 's run" where
  "phase_all_loop ops n r = fold (do_phase ops) [0..<n] r"

definition factor_stage :: "'s simulator \<Rightarrow> nat \<Rightarrow> quadrant \<Rightarrow> 's run \<Rightarrow> py_error + 's run" where
  "factor_stage ops n q r =
     (case find_M (quad ops n q r) of
        Inl e \<Rightarrow> Inl e
      | Inr M \<Rightarrow>
          let L = defect M (quad ops n q r)
          in Inr (phase_all_loop ops n (cnot_sweep ops n M (phase_defect_loop ops n L r))))"

text \<open>Stage 1 and stage 7.\<close>

definition hadamard_stage :: "'s simulator \<Rightarrow> nat \<Rightarrow> 's run \<Rightarrow> py_error + 's run" where
  "hadamard_stage ops n r =
     (case get_hadamard_steps (quad ops n Qc r) (quad ops n Qd r) of
        Inl e \<Rightarrow> Inl e
      | Inr steps \<Rightarrow> Inr (fold (do_hadamard ops) steps r))"

definition hadamard_all_stage :: "'s simulator \<Rightarrow> nat \<Rightarrow> 's run \<Rightarrow> 's run" where
  "hadamard_all_stage ops n r = fold (do_hadamard ops) [0..<n] r"

text \<open>An exception raised in one stage ends the call.\<close>

definition and_then :: "py_error + 'a \<Rightarrow> ('a \<Rightarrow> py_error + 'b) \<Rightarrow> py_error + 'b" where
  "and_then x f = (case x of Inl e \<Rightarrow> Inl e | Inr v \<Rightarrow> f v)"

definition forward_run :: "'s simulator \<Rightarrow> 's handle \<Rightarrow> py_error + 's run" where
  "forward_run ops h = (let n = nrows (state ops (fst h)) div 2 in
     and_then (hadamard_stage ops n (h, [])) (\<lambda>r.
     and_then (column_reduce_stage ops n Qc r) (\<lambda>r.
     and_then (factor_stage ops n Qd r) (\<lambda>r.
     and_then (column_reduce_stage ops n Qc r) (\<lambda>r.
     and_then (factor_stage ops n Qb (hadamard_all_stage ops n r)) (\<lambda>r.
     column_reduce_stage ops n Qa r))))))"

text \<open>Stage 12: the accumulated list is reversed and returned; the simulator stays as the run left it.\<close>

definition decompose_state :: "'s simulator \<Rightarrow> 's handle \<Rightarrow> py_error + (gate list \<times> 's handle)" where
  "decompose_state ops h =
     (case forward_run ops h of Inl e \<Rightarrow> Inl e | Inr r \<Rightarrow> Inr (rev (snd r), fst r))"

section \<open>A tableau simulator\<close>

text \<open>
  Modelled from the spec: the simulator class is not part of this module; the spec names
  its interface (a readable tableau and the six mutators, each transforming the tableau
  "according to standard stabilizer-update rules"). This instance holds the
  \<open>2n \<times> 2n\<close> tableau only, as its list of rows, X parts in columns \<open>0..n-1\<close> and
  Z parts in columns \<open>n..2n-1\<close>: Hadamard exchanges the two columns of its qubit, Phase
  adds the X column of its qubit into the Z column, CNOT adds the control's X column
  into the target's and the target's Z column into the control's. The Pauli gates
  change signs only, which the tableau does not hold. It serves as the concrete
  simulator where a statement is evaluated; the general statements hold for every
  simulator.
\<close>

type_synonym tableau = "int list list"

definition tableau_array :: "tableau \<Rightarrow> ndarray" where
  "tableau_array T = of_rows (length T) (case T of [] \<Rightarrow> 0 | row # _ \<Rightarrow> length row) T"

definition chp_apply :: "sim_call \<Rightarrow> tableau \<Rightarrow> tableau" where
  "chp_apply call T = (let n = length T div 2 in
     case call of
       ApplyHadamard q \<Rightarrow> map (\<lambda>row. row[q := row ! (n + q), n + q := row ! q]) T
     | ApplyPhase q \<Rightarrow> map (\<lambda>row. row[n + q := (row ! (n + q) + row ! q) mod 2]) T
     | ApplyCnot q1 (Some q2) \<Rightarrow>
         map (\<lambda>row. row[q2 := (row ! q2 + row ! q1) mod 2,
                         n + q1 := (row ! (n + q1) + row ! (n + q2)) mod 2]) T
     | _ \<Rightarrow> T)"

definition chp :: "tableau simulator" where
  "chp = \<lparr>state = tableau_array, apply_call = chp_apply\<rparr>"

section \<open>Replay: dispatch and the unknown-kind error\<close>

lemma issue_all_Nil: "issue_all ops [] h = h"
  by (simp add: issue_all_def)

lemma issue_all_Cons: "issue_all ops (c # cs) h = issue_all ops cs (issue ops c h)"
  by (simp add: issue_all_def)

lemma call_of_recognized:
  "recognized (gate, q1, q2) \<Longrightarrow>
   apply_gates ops ((gate, q1, q2) # gates) h =
     apply_gates ops gates (issue ops (call_of (gate, q1, q2)) h)"
  by (auto simp: recognized_def call_of_def)

lemma apply_gates_unrecognized:
  "\<not> recognized (gate, q1, q2) \<Longrightarrow>
   apply_gates ops ((gate, q1, q2) # gates) h = (Some ValueError, h)"
  by (auto simp: recognized_def)

lemma apply_gates_prefix:
  "apply_gates ops gates h =
     (if \<forall>g\<in>set gates. recognized g then None else Some ValueError,
      issue_all ops (map call_of (takeWhile recognized gates)) h)"
proof (induction gates arbitrary: h)
  case Nil
  show ?case by (simp add: issue_all_Nil)
next
  case (Cons g gates)
  obtain gate q1 q2 where g: "g = (gate, q1, q2)" by (cases g)
  show ?case
  proof (cases "recognized g")
    case True
    then show ?thesis
      using Cons.IH [of "issue ops (call_of g) h"] call_of_recognized [of gate q1 q2 ops gates h]
      by (simp add: g issue_all_Cons)
  next
    case False
    then show ?thesis
      using apply_gates_unrecognized [of gate q1 q2 ops gates h]
      by (auto simp: g issue_all_Nil)
  qed
qed

text \<open>
  Claim C6. \<open>apply_gates\<close> walks the gate list in order and hands each record to the
  simulator operation of its kind: \<open>'c'\<close> to \<open>apply_cnot(q1, q2)\<close>, \<open>'h'\<close> to
  \<open>apply_hadamard(q1)\<close>, \<open>'p'\<close> to \<open>apply_phase(q1)\<close>, \<open>'x'\<close>, \<open>'y'\<close>, \<open>'z'\<close> to
  \<open>apply_x(q1)\<close>, \<open>apply_y(q1)\<close>, \<open>apply_z(q1)\<close>. It raises ValueError if and only if
  some record's kind is not one of these six; on a list of recognized kinds only it
  returns normally, having issued exactly the calls of the records, in order.
\<close>

theorem apply_gates_dispatch:
  "(fst (apply_gates ops gates h) = Some ValueError \<longleftrightarrow> (\<exists>g\<in>set gates. \<not> recognized g))
   \<and> (fst (apply_gates ops gates h) \<noteq> None \<longrightarrow> fst (apply_gates ops gates h) = Some ValueError)
   \<and> ((\<forall>g\<in>set gates. recognized g) \<longrightarrow>
        apply_gates ops gates h = (None, issue_all ops (map call_of gates) h))
   \<and> call_of (''c'', q1, q2) = ApplyCnot q1 q2
   \<and> call_of (''h'', q1, q2) = ApplyHadamard q1
   \<and> call_of (''p'', q1, q2) = ApplyPhase q1
   \<and> call_of (''x'', q1, q2) = ApplyX q1
   \<and> call_of (''y'', q1, q2) = ApplyY q1
   \<and> call_of (''z'', q1, q2) = ApplyZ q1"
proof -
  have "takeWhile recognized gates = gates" if "\<forall>g\<in>set gates. recognized g"
    using that by (simp add: takeWhile_eq_all_conv)
  then show ?thesis
    by (auto simp: apply_gates_prefix call_of_def takeWhile_eq_all_conv [THEN iffD2])
qed

theorem apply_gates_dispatch_witness:
  "fst (apply_gates chp [(''h'', 0, None), (''c'', 0, Some 1), (''p'', 1, None)] ([[1, 0, 0, 0], [0, 1, 0, 0], [0, 0, 1, 0], [0, 0, 0, 1]], [])) = None
   \<and> snd (snd (apply_gates chp [(''h'', 0, None), (''c'', 0, Some 1), (''p'', 1, None)] ([[1, 0, 0, 0], [0, 1, 0, 0], [0, 0, 1, 0], [0, 0, 0, 1]], [])))
       = [ApplyHadamard 0, ApplyCnot 0 (Some 1), ApplyPhase 1]
   \<and> fst (apply_gates chp [(''h'', 0, None), (''q'', 0, None)] ([[1, 0, 0, 0], [0, 1, 0, 0], [0, 0, 1, 0], [0, 0, 0, 1]], [])) = Some ValueError"
proof -
  let ?good = "[(''h'', 0, None), (''c'', 0, Some 1), (''p'', 1, None)] :: gate list"
  let ?bad = "[(''h'', 0, None), (''q'', 0, None)] :: gate list"
  let ?h = "([[1, 0, 0, 0], [0, 1, 0, 0], [0, 0, 1, 0], [0, 0, 0, 1]], []) :: tableau handle"
  have good: "\<forall>g\<in>set ?good. recognized g"
    by (simp add: recognized_def)
  have bad: "\<exists>g\<in>set ?bad. \<not> recognized g"
    by (simp add: recognized_def)
  from apply_gates_dispatch [of chp ?good ?h 0 None] good
  have 1: "apply_gates chp ?good ?h = (None, issue_all chp (map call_of ?good) ?h)"
    by blast
  from apply_gates_dispatch [of chp ?bad ?h 0 None] bad
  have 2: "fst (apply_gates chp ?bad ?h) = Some ValueError"
    by blast
  have 3: "snd (issue_all chp (map call_of ?good) ?h)
      = [ApplyHadamard 0, ApplyCnot 0 (Some 1), ApplyPhase 1]"
    by (simp add: issue_all_def issue_def call_of_def)
  show ?thesis
    unfolding 1 using 2 3 by simp
qed


text \<open>
  Claim C7, as stated, fails: replaying \<open>[('h', 0, None), ('q', 0, None)]\<close> on a
  one-qubit simulator raises ValueError, but the Hadamard before the unknown record has
  been applied by then, so the tableau differs from the one the call started with.
\<close>

theorem apply_gates_partial_counterexample:
  "fst (apply_gates chp [(''h'', 0, None), (''q'', 0, None)] ([[1, 0], [0, 1]], [])) = Some ValueError
   \<and> fst (snd (apply_gates chp [(''h'', 0, None), (''q'', 0, None)] ([[1, 0], [0, 1]], [])))
       = [[0, 1], [1, 0]]
   \<and> fst (snd (apply_gates chp [(''h'', 0, None), (''q'', 0, None)] ([[1, 0], [0, 1]], [])))
       \<noteq> [[1, 0], [0, 1]]
   \<and> snd (snd (apply_gates chp [(''h'', 0, None), (''q'', 0, None)] ([[1, 0], [0, 1]], [])))
       = [ApplyHadamard 0]"
  by (simp add: issue_def chp_def chp_apply_def)

text \<open>
  Claim C7, amended. For every gate list containing a record of an unrecognized kind,
  \<open>apply_gates\<close> raises ValueError, and the simulator is then in the state reached by
  the calls of the records before the first unrecognized one, issued in order; no
  record after it is applied.
\<close>

theorem apply_gates_fails_after_prefix:
  "\<exists>g\<in>set gates. \<not> recognized g \<Longrightarrow>
   apply_gates ops gates h =
     (Some ValueError, issue_all ops (map call_of (takeWhile recognized gates)) h)"
  by (simp add: apply_gates_prefix)

theorem apply_gates_fails_after_prefix_witness:
  "(\<exists>g\<in>set [(''h'', 0, None), (''q'', 0, None), (''p'', 0, None)]. \<not> recognized g)
   \<and> apply_gates chp [(''h'', 0, None), (''q'', 0, None), (''p'', 0, None)] ([[1, 0], [0, 1]], []) =
     (Some ValueError, issue chp (ApplyHadamard 0) ([[1, 0], [0, 1]], []))"
  using apply_gates_fails_after_prefix [of "[(''h'', 0, None), (''q'', 0, None), (''p'', 0, None)]" chp "([[1, 0], [0, 1]], [])"]
  by (simp add: recognized_def call_of_def issue_all_def)


section \<open>Symplectic basis transform: the quadrants\<close>

lemma fill_inner:
  "entry (fst (fold (fill_entry S j) [0..<m] q)) r x =
     (if r = j \<and> x < m then int8 (entry S (2 * x) (2 * j)) else entry (fst q) r x)"
  "entry (fst (snd (fold (fill_entry S j) [0..<m] q))) r x =
     (if r = j \<and> x < m then int8 (entry S (2 * x + 1) (2 * j)) else entry (fst (snd q)) r x)"
  "entry (fst (snd (snd (fold (fill_entry S j) [0..<m] q)))) r x =
     (if r = j \<and> x < m then int8 (entry S (2 * x) (2 * j + 1)) else entry (fst (snd (snd q))) r x)"
  "entry (snd (snd (snd (fold (fill_entry S j) [0..<m] q)))) r x =
     (if r = j \<and> x < m then int8 (entry S (2 * x + 1) (2 * j + 1)) else entry (snd (snd (snd q))) r x)"
  by (induction m) (auto simp: fill_entry_def setitem_def case_prod_beta less_Suc_eq)

lemma fill_inner_shape:
  "nrows (fst (fold (fill_entry S j) [0..<m] q)) = nrows (fst q)"
  "ncols (fst (fold (fill_entry S j) [0..<m] q)) = ncols (fst q)"
  "nrows (fst (snd (fold (fill_entry S j) [0..<m] q))) = nrows (fst (snd q))"
  "ncols (fst (snd (fold (fill_entry S j) [0..<m] q))) = ncols (fst (snd q))"
  "nrows (fst (snd (snd (fold (fill_entry S j) [0..<m] q)))) = nrows (fst (snd (snd q)))"
  "ncols (fst (snd (snd (fold (fill_entry S j) [0..<m] q)))) = ncols (fst (snd (snd q)))"
  "nrows (snd (snd (snd (fold (fill_entry S j) [0..<m] q)))) = nrows (snd (snd (snd q)))"
  "ncols (snd (snd (snd (fold (fill_entry S j) [0..<m] q)))) = ncols (snd (snd (snd q)))"
  by (induction m) (simp_all add: fill_entry_def setitem_def case_prod_beta)

lemma fill_quadrants_entries:
  "entry (fst (fill_quadrants S n q)) r x =
     (if r < n \<and> x < n then int8 (entry S (2 * x) (2 * r)) else entry (fst q) r x)"
  "entry (fst (snd (fill_quadrants S n q))) r x =
     (if r < n \<and> x < n then int8 (entry S (2 * x + 1) (2 * r)) else entry (fst (snd q)) r x)"
  "entry (fst (snd (snd (fill_quadrants S n q)))) r x =
     (if r < n \<and> x < n then int8 (entry S (2 * x) (2 * r + 1)) else entry (fst (snd (snd q))) r x)"
  "entry (snd (snd (snd (fill_quadrants S n q)))) r x =
     (if r < n \<and> x < n then int8 (entry S (2 * x + 1) (2 * r + 1)) else entry (snd (snd (snd q))) r x)"
proof -
  define outer where "outer l = fold (\<lambda>j. fold (fill_entry S j) [0..<n]) [0..<l] q" for l
  have step: "outer (Suc l) = fold (fill_entry S l) [0..<n] (outer l)" for l
    by (simp add: outer_def)
  have "entry (fst (outer l)) r x =
       (if r < l \<and> x < n then int8 (entry S (2 * x) (2 * r)) else entry (fst q) r x) \<and>
     entry (fst (snd (outer l))) r x =
       (if r < l \<and> x < n then int8 (entry S (2 * x + 1) (2 * r)) else entry (fst (snd q)) r x) \<and>
     entry (fst (snd (snd (outer l)))) r x =
       (if r < l \<and> x < n then int8 (entry S (2 * x) (2 * r + 1)) else entry (fst (snd (snd q))) r x) \<and>
     entry (snd (snd (snd (outer l)))) r x =
       (if r < l \<and> x < n then int8 (entry S (2 * x + 1) (2 * r + 1)) else entry (snd (snd (snd q))) r x)"
    for l
  proof (induction l)
    case 0
    show ?case by (simp add: outer_def)
  next
    case (Suc l)
    then show ?case
      by (simp add: step fill_inner less_Suc_eq)
  qed
  from this [of n] show
    "entry (fst (fill_quadrants S n q)) r x =
       (if r < n \<and> x < n then int8 (entry S (2 * x) (2 * r)) else entry (fst q) r x)"
    "entry (fst (snd (fill_quadrants S n q))) r x =
       (if r < n \<and> x < n then int8 (entry S (2 * x + 1) (2 * r)) else entry (fst (snd q)) r x)"
    "entry (fst (snd (snd (fill_quadrants S n q)))) r x =
       (if r < n \<and> x < n then int8 (entry S (2 * x) (2 * r + 1)) else entry (fst (snd (snd q))) r x)"
    "entry (snd (snd (snd (fill_quadrants S n q)))) r x =
       (if r < n \<and> x < n then int8 (entry S (2 * x + 1) (2 * r + 1)) else entry (snd (snd (snd q))) r x)"
    by (simp_all add: fill_quadrants_def outer_def)
qed

lemma fill_quadrants_shape:
  "nrows (fst (fill_quadrants S n q)) = nrows (fst q)"
  "ncols (fst (fill_quadrants S n q)) = ncols (fst q)"
  "nrows (fst (snd (fill_quadrants S n q))) = nrows (fst (snd q))"
  "ncols (fst (snd (fill_quadrants S n q))) = ncols (fst (snd q))"
  "nrows (fst (snd (snd (fill_quadrants S n q)))) = nrows (fst (snd (snd q)))"
  "ncols (fst (snd (snd (fill_quadrants S n q)))) = ncols (fst (snd (snd q)))"
  "nrows (snd (snd (snd (fill_quadrants S n q)))) = nrows (snd (snd (snd q)))"
  "ncols (snd (snd (snd (fill_quadrants S n q)))) = ncols (snd (snd (snd q)))"
proof -
  define outer where "outer l = fold (\<lambda>j. fold (fill_entry S j) [0..<n]) [0..<l] q" for l
  have step: "outer (Suc l) = fold (fill_entry S l) [0..<n] (outer l)" for l
    by (simp add: outer_def)
  have "nrows (fst (outer l)) = nrows (fst q) \<and> ncols (fst (outer l)) = ncols (fst q) \<and>
    nrows (fst (snd (outer l))) = nrows (fst (snd q)) \<and>
    ncols (fst (snd (outer l))) = ncols (fst (snd q)) \<and>
    nrows (fst (snd (snd (outer l)))) = nrows (fst (snd (snd q))) \<and>
    ncols (fst (snd (snd (outer l)))) = ncols (fst (snd (snd q))) \<and>
    nrows (snd (snd (snd (outer l)))) = nrows (snd (snd (snd q))) \<and>
    ncols (snd (snd (snd (outer l)))) = ncols (snd (snd (snd q)))" for l
  proof (induction l)
    case 0
    show ?case by (simp add: outer_def)
  next
    case (Suc l)
    then show ?case by (simp add: step fill_inner_shape)
  qed
  from this [of n] show
    "nrows (fst (fill_quadrants S n q)) = nrows (fst q)"
    "ncols (fst (fill_quadrants S n q)) = ncols (fst q)"
    "nrows (fst (snd (fill_quadrants S n q))) = nrows (fst (snd q))"
    "ncols (fst (snd (fill_quadrants S n q))) = ncols (fst (snd q))"
    "nrows (fst (snd (snd (fill_quadrants S n q)))) = nrows (fst (snd (snd q)))"
    "ncols (fst (snd (snd (fill_quadrants S n q)))) = ncols (fst (snd (snd q)))"
    "nrows (snd (snd (snd (fill_quadrants S n q)))) = nrows (snd (snd (snd q)))"
    "ncols (snd (snd (snd (fill_quadrants S n q)))) = ncols (snd (snd (snd q)))"
    by (simp_all add: fill_quadrants_def outer_def)
qed

lemma int8_binary: "x = 0 \<or> x = 1 \<Longrightarrow> int8 x = x"
  by (auto simp: int8_def)


text \<open>
  Claim C8. For every \<open>2n \<times> 2n\<close> binary matrix \<open>S\<close>, \<open>transform_symplectic(S)\<close>
  returns the \<open>2n \<times> 2n\<close> block matrix \<open>[[a, b], [c, d]]\<close> with
  \<open>a[j,k] = S[2k, 2j]\<close>, \<open>b[j,k] = S[2k+1, 2j]\<close>, \<open>c[j,k] = S[2k, 2j+1]\<close> and
  \<open>d[j,k] = S[2k+1, 2j+1]\<close> for all \<open>j, k < n\<close>.
\<close>

theorem transform_symplectic_quadrants:
  assumes "nrows S = 2 * n" and "ncols S = 2 * n" and "binary S"
  shows "\<exists>R. transform_symplectic S = Inr R \<and> nrows R = 2 * n \<and> ncols R = 2 * n \<and>
    (\<forall>j<n. \<forall>k<n.
       entry R j k = entry S (2 * k) (2 * j) \<and>
       entry R j (n + k) = entry S (2 * k + 1) (2 * j) \<and>
       entry R (n + j) k = entry S (2 * k) (2 * j + 1) \<and>
       entry R (n + j) (n + k) = entry S (2 * k + 1) (2 * j + 1))"
proof -
  have b: "int8 (entry S i j) = entry S i j" if "i < 2 * n" "j < 2 * n" for i j
    using assms that by (intro int8_binary) (auto simp: binary_def)
  define q where "q = fill_quadrants S n (zeros n n, zeros n n, zeros n n, zeros n n)"
  define R where "R = vstack (hstack (fst q) (fst (snd q)))
     (hstack (fst (snd (snd q))) (snd (snd (snd q))))"
  have n: "nrows S div 2 = n"
    using assms(1) by simp
  have "transform_symplectic S = Inr R"
    using assms(2) by (simp add: transform_symplectic_def n q_def R_def case_prod_beta)
  moreover have "nrows R = 2 * n" "ncols R = 2 * n"
    by (simp_all add: R_def q_def vstack_def hstack_def fill_quadrants_shape zeros_def)
  moreover have "entry R j k = entry S (2 * k) (2 * j)"
    "entry R j (n + k) = entry S (2 * k + 1) (2 * j)"
    "entry R (n + j) k = entry S (2 * k) (2 * j + 1)"
    "entry R (n + j) (n + k) = entry S (2 * k + 1) (2 * j + 1)" if "j < n" "k < n" for j k
    using that
    by (simp_all add: R_def q_def vstack_def hstack_def fill_quadrants_shape
        fill_quadrants_entries zeros_def b)
  ultimately show ?thesis by blast
qed

theorem transform_symplectic_quadrants_witness:
  "nrows (of_rows 2 2 [[0, 1], [1, 1]]) = 2 * 1 \<and> ncols (of_rows 2 2 [[0, 1], [1, 1]]) = 2 * 1
   \<and> binary (of_rows 2 2 [[0, 1], [1, 1]])
   \<and> (\<exists>R. transform_symplectic (of_rows 2 2 [[0, 1], [1, 1]]) = Inr R \<and>
        entry R 0 0 = 0 \<and> entry R 0 1 = 1 \<and> entry R 1 0 = 1 \<and> entry R 1 1 = 1)"
proof -
  let ?S = "of_rows 2 2 [[0, 1], [1, 1]]"
  have h: "nrows ?S = 2 * 1" "ncols ?S = 2 * 1" "binary ?S"
    by (simp_all add: of_rows_def binary_def less_Suc_eq numeral_2_eq_2)
  from transform_symplectic_quadrants [OF h] obtain R where
    R: "transform_symplectic ?S = Inr R" and
    e: "\<forall>j<1. \<forall>k<1. entry R j k = entry ?S (2 * k) (2 * j) \<and>
       entry R j (1 + k) = entry ?S (2 * k + 1) (2 * j) \<and>
       entry R (1 + j) k = entry ?S (2 * k) (2 * j + 1) \<and>
       entry R (1 + j) (1 + k) = entry ?S (2 * k + 1) (2 * j + 1)"
    by blast
  from e have "entry R 0 0 = 0 \<and> entry R 0 1 = 1 \<and> entry R 1 0 = 1 \<and> entry R 1 1 = 1"
    by (simp add: of_rows_def)
  with R h show ?thesis by blast
qed

end
